theory Spec2Isabelle
  imports Complex_Main "HOL-Library.Char_ord" "HOL-Library.List_Lexorder"
begin

section \<open>The corpus expander \<^verbatim>\<open>level_3/expand.py\<close>\<close>

text \<open>
  A shallow embedding of \<^verbatim>\<open>src/level_3/expand.py\<close>: the sentence loader, the batch
  partition, the progress tracker, the remote generation client, the output formatter and
  the batch driver \<^verbatim>\<open>main\<close>.  Every function of the script is a HOL function of the same
  name; an exception is a value \<open>Inl e\<close> of a sum type; the files, the remote service and
  the console are fields of an explicit \<open>world\<close> record that the functions pass along.
\<close>

subsection \<open>Python strings\<close>

text \<open>
  A Python \<^verbatim>\<open>str\<close> is modelled as a \<open>string\<close>, read as a sequence of code points below
  256.  In that range \<^verbatim>\<open>str.splitlines\<close> breaks a line at the code points
  0A, 0B, 0C, 0D, 1C, 1D, 1E and 85 (and takes CR LF as one break), and \<^verbatim>\<open>str.strip\<close>
  removes the code points 09 to 0D, 1C to 1F, 20, 85 and A0 from both ends.
\<close>

definition LF :: char where
  "LF = CHR 0x0A"

definition CR :: char where
  "CR = CHR 0x0D"

definition is_linebreak :: "char \<Rightarrow> bool" where
  "is_linebreak c =
     (c \<in> set [CHR 0x0A, CHR 0x0B, CHR 0x0C, CHR 0x0D, CHR 0x1C, CHR 0x1D, CHR 0x1E, CHR 0x85])"

definition is_space :: "char \<Rightarrow> bool" where
  "is_space c =
     (c \<in> set [CHR 0x09, CHR 0x0A, CHR 0x0B, CHR 0x0C, CHR 0x0D, CHR 0x1C, CHR 0x1D, CHR 0x1E,
                CHR 0x1F, CHR 0x20, CHR 0x85, CHR 0xA0])"

text \<open>
  \<^verbatim>\<open>s.splitlines()\<close>: \<open>cur\<close> holds the characters of the line being read, last one
  first.  A line is closed at each line break; what follows the last break is a line only
  when it is not empty.
\<close>

fun splitlines_from :: "string \<Rightarrow> string \<Rightarrow> string list" where
  "splitlines_from cur [] = (if cur = [] then [] else [rev cur])"
| "splitlines_from cur (c # cs) =
     (if is_linebreak c then
        rev cur # (case cs of
                     d # ds \<Rightarrow>
                       if c = CR \<and> d = LF then splitlines_from [] ds else splitlines_from [] cs
                   | [] \<Rightarrow> splitlines_from [] cs)
      else splitlines_from (c # cur) cs)"

definition splitlines :: "string \<Rightarrow> string list" where
  "splitlines s = splitlines_from [] s"

definition py_strip :: "string \<Rightarrow> string" where
  "py_strip s = rev (dropWhile is_space (rev (dropWhile is_space s)))"

definition endswith :: "string \<Rightarrow> string \<Rightarrow> bool" where
  "endswith s suf = (length suf \<le> length s \<and> drop (length s - length suf) s = suf)"

definition startswith :: "string \<Rightarrow> string \<Rightarrow> bool" where
  "startswith s pre = (take (length pre) s = pre)"

definition removesuffix :: "string \<Rightarrow> string \<Rightarrow> string" where
  "removesuffix s suf =
     (if suf \<noteq> [] \<and> endswith s suf then take (length s - length suf) s else s)"

text \<open>\<^verbatim>\<open>sep.join(xs)\<close>\<close>

fun join :: "string \<Rightarrow> string list \<Rightarrow> string" where
  "join sep [] = []"
| "join sep [x] = x"
| "join sep (x # y # ys) = x @ sep @ join sep (y # ys)"

definition stop_marker :: string where
  "stop_marker = ''<stop>''"

subsection \<open>The output formatter\<close>

text \<open>
  \<^verbatim>\<open>format_output\<close> (lines 140 to 149).  \<open>format_lines\<close> is its loop over
  \<^verbatim>\<open>raw.splitlines()\<close>, which collects the list \<^verbatim>\<open>lines\<close>.
\<close>

fun format_lines :: "string list \<Rightarrow> string list" where
  "format_lines [] = []"
| "format_lines (l # ls) =
     (let line = py_strip l in
      if line \<noteq> [] then
        (if \<not> endswith line stop_marker then line @ stop_marker else line) # format_lines ls
      else format_lines ls)"

definition format_output :: "string \<Rightarrow> string" where
  "format_output raw = join [LF] (format_lines (splitlines raw))"

subsection \<open>Errors, JSON values and Python sets\<close>

datatype file_name = CorpusFile | OutputFile | ProgressFile | EnvFile

datatype transport_error = URLError | HTTPError nat | TimeoutError | BadResponseBody

datatype scalar = SNone | SBool bool | SInt int | SStr string

text \<open>
  What \<^verbatim>\<open>json.load\<close> returns: \<^verbatim>\<open>None\<close>, a \<^verbatim>\<open>bool\<close>, an \<^verbatim>\<open>int\<close>, a \<^verbatim>\<open>str\<close>, a list
  or a dict (given by its items, the keys distinct).  JSON numbers with a fraction or an
  exponent (Python floats) are not represented.
\<close>

datatype json = JScalar scalar | JArr "json list" | JObj "(string \<times> json) list"

text \<open>
  The exceptions of the script.  \<open>JobFailed state status\<close> is the \<^verbatim>\<open>RuntimeError\<close> of line
  131 and \<open>ResultError e\<close> the one of line 136; \<open>OSError f\<close> is raised by \<^verbatim>\<open>open\<close> and
  carries the file; \<open>Transport t\<close> is whatever \<^verbatim>\<open>_fal_request\<close> raises; \<open>SystemExit\<close> is
  \<^verbatim>\<open>sys.exit\<close>.
\<close>

datatype error =
    OSError file_name
  | JSONDecodeError
  | ValueError
  | KeyError
  | IndexError
  | TypeError
  | AttributeError
  | Transport transport_error
  | JobFailed json json
  | ResultError json
  | SystemExit nat

text \<open>Truth value of a JSON value in a Python condition.\<close>

fun truthy :: "json \<Rightarrow> bool" where
  "truthy (JScalar SNone) = False"
| "truthy (JScalar (SBool b)) = b"
| "truthy (JScalar (SInt i)) = (i \<noteq> 0)"
| "truthy (JScalar (SStr s)) = (s \<noteq> [])"
| "truthy (JArr xs) = (xs \<noteq> [])"
| "truthy (JObj kv) = (kv \<noteq> [])"

text \<open>\<^verbatim>\<open>isinstance(x, int)\<close>: a Python \<^verbatim>\<open>bool\<close> is an \<^verbatim>\<open>int\<close>.\<close>

fun is_int :: "json \<Rightarrow> bool" where
  "is_int (JScalar (SInt i)) = True"
| "is_int (JScalar (SBool b)) = True"
| "is_int j = False"

text \<open>\<^verbatim>\<open>obj[key]\<close> and \<^verbatim>\<open>obj.get(key)\<close> for a string key.\<close>

fun py_getitem :: "json \<Rightarrow> string \<Rightarrow> error + json" where
  "py_getitem (JObj kv) k = (case map_of kv k of None \<Rightarrow> Inl KeyError | Some v \<Rightarrow> Inr v)"
| "py_getitem j k = Inl TypeError"

fun py_get :: "json \<Rightarrow> string \<Rightarrow> error + json" where
  "py_get (JObj kv) k = Inr (case map_of kv k of None \<Rightarrow> JScalar SNone | Some v \<Rightarrow> v)"
| "py_get j k = Inl AttributeError"

text \<open>
  A Python set of hashable JSON values, as the list of its elements (no two equal in
  Python's sense, where \<^verbatim>\<open>True == 1\<close> and \<^verbatim>\<open>False == 0\<close>).
\<close>

type_synonym pyset = "scalar list"

fun is_num :: "scalar \<Rightarrow> bool" where
  "is_num (SBool b) = True"
| "is_num (SInt i) = True"
| "is_num x = False"

fun num_val :: "scalar \<Rightarrow> int" where
  "num_val (SBool b) = (if b then 1 else 0)"
| "num_val (SInt i) = i"
| "num_val x = 0"

fun is_str :: "scalar \<Rightarrow> bool" where
  "is_str (SStr s) = True"
| "is_str x = False"

fun str_val :: "scalar \<Rightarrow> string" where
  "str_val (SStr s) = s"
| "str_val x = []"

definition py_eq :: "scalar \<Rightarrow> scalar \<Rightarrow> bool" where
  "py_eq x y = (if is_num x \<and> is_num y then num_val x = num_val y else x = y)"

definition py_in :: "scalar \<Rightarrow> pyset \<Rightarrow> bool" where
  "py_in x s = list_ex (py_eq x) s"

definition py_add :: "pyset \<Rightarrow> scalar \<Rightarrow> pyset" where
  "py_add s x = (if py_in x s then s else s @ [x])"

text \<open>\<^verbatim>\<open>set(data)\<close> for a list: a list or dict among the elements is not hashable.\<close>

fun py_set_from :: "pyset \<Rightarrow> json list \<Rightarrow> error + pyset" where
  "py_set_from s [] = Inr s"
| "py_set_from s (JScalar x # xs) = py_set_from (py_add s x) xs"
| "py_set_from s (j # xs) = Inl TypeError"

fun py_set :: "json \<Rightarrow> error + pyset" where
  "py_set (JArr xs) = py_set_from [] xs"
| "py_set (JObj kv) = py_set_from [] (map (\<lambda>(k, v). JScalar (SStr k)) kv)"
| "py_set (JScalar (SStr s)) = py_set_from [] (map (\<lambda>c. JScalar (SStr [c])) s)"
| "py_set (JScalar x) = Inl TypeError"

text \<open>
  \<^verbatim>\<open>sorted(s)\<close> for a set: numbers compare with numbers and strings with strings; any
  other comparison raises \<^verbatim>\<open>TypeError\<close>, and a sort of two or more elements compares each
  of them with another one.
\<close>

definition py_sorted :: "pyset \<Rightarrow> error + scalar list" where
  "py_sorted s =
     (if length s \<le> 1 then Inr s
      else if list_all is_num s then Inr (sort_key num_val s)
      else if list_all is_str s then Inr (sort_key str_val s)
      else Inl TypeError)"

subsection \<open>The world\<close>

datatype 'a stored = Missing | Unreadable | Content 'a

datatype request =
    Submit string string string
  | GetStatus string json
  | GetResult string json

datatype response = Fails transport_error | Reply json

text \<open>The lines the driver prints (the marks of the poll loop are left out).\<close>

datatype line =
    Summary nat nat nat nat
  | DryRunHeader
  | Preview nat string
  | NoKey
  | Generating nat string
  | BatchStart nat nat nat nat
  | BatchOK nat
  | BatchFailed error
  | StillRemaining nat
  | AllGenerated

text \<open>
  \<^item> \<open>corpus_file\<close>: the lines of \<^verbatim>\<open>corpus.txt\<close> as iterating the file yields them;
  \<^item> \<open>env_file\<close>: the lines of \<^verbatim>\<open>~/.env\<close>;
  \<^item> \<open>progress_file\<close>: what \<^verbatim>\<open>json.load\<close> reads from \<^verbatim>\<open>expand_progress.json\<close>, \<open>None\<close> when
    its text is not JSON;
  \<^item> \<open>output_file\<close>: the text of \<^verbatim>\<open>llm_expanded_corpus.txt\<close>;
  \<^item> \<open>net\<close>: the remote service, the answer to the request made as call number \<open>net_pos\<close>;
  \<^item> \<open>disk\<close>: fault injection, whether the \<^verbatim>\<open>open\<close> for writing number \<open>disk_pos\<close> fails;
  \<^item> \<open>console\<close>: the lines printed; \<open>slept\<close>: the time spent in \<^verbatim>\<open>time.sleep\<close>.
\<close>

record world =
  corpus_file :: "string list stored"
  env_file :: "string list stored"
  progress_file :: "json option stored"
  output_file :: string
  net :: "nat \<Rightarrow> request \<Rightarrow> response"
  net_pos :: nat
  disk :: "nat \<Rightarrow> bool"
  disk_pos :: nat
  console :: "line list"
  slept :: nat

record args =
  arg_n :: int
  arg_batch_size :: int
  arg_model :: string

definition py_print :: "line \<Rightarrow> world \<Rightarrow> world" where
  "py_print l w = w\<lparr>console := console w @ [l]\<rparr>"

definition sleep :: "nat \<Rightarrow> world \<Rightarrow> world" where
  "sleep t w = w\<lparr>slept := slept w + t\<rparr>"

subsection \<open>Loading the key, the sentences and the progress\<close>

text \<open>\<^verbatim>\<open>load_key\<close> (lines 53 to 66); \<open>find_key\<close> is its loop over the lines.\<close>

fun find_key :: "string \<Rightarrow> string list \<Rightarrow> string option" where
  "find_key name [] = None"
| "find_key name (l # ls) =
     (let line = py_strip l in
      if line = [] \<or> startswith line ''#'' then find_key name ls
      else if CHR ''='' \<in> set line then
        (let k = takeWhile (\<lambda>c. c \<noteq> CHR ''='') line;
             v = tl (dropWhile (\<lambda>c. c \<noteq> CHR ''='') line)
         in if py_strip k = name then Some (py_strip v) else find_key name ls)
      else find_key name ls)"

definition load_key :: "string \<Rightarrow> world \<Rightarrow> error + string option" where
  "load_key name w =
     (case env_file w of
        Missing \<Rightarrow> Inr None
      | Unreadable \<Rightarrow> Inl (OSError EnvFile)
      | Content ls \<Rightarrow> Inr (find_key name ls))"

text \<open>\<^verbatim>\<open>load_sentences\<close> (lines 69 to 72).\<close>

definition load_sentences :: "world \<Rightarrow> error + string list" where
  "load_sentences w =
     (case corpus_file w of
        Content ls \<Rightarrow>
          Inr (filter (\<lambda>s. s \<noteq> [])
                 (map (\<lambda>line. py_strip (removesuffix (py_strip line) stop_marker)) ls))
      | _ \<Rightarrow> Inl (OSError CorpusFile))"

text \<open>
  \<^verbatim>\<open>load_progress\<close> (lines 75 to 83).  \<open>first_item\<close> is \<^verbatim>\<open>data[0]\<close>, evaluated when
  \<^verbatim>\<open>data\<close> is truthy.
\<close>

fun first_item :: "json \<Rightarrow> error + json" where
  "first_item (JArr (x # xs)) = Inr x"
| "first_item (JArr []) = Inl IndexError"
| "first_item (JScalar (SStr (c # cs))) = Inr (JScalar (SStr [c]))"
| "first_item (JScalar (SStr [])) = Inl IndexError"
| "first_item (JObj kv) = Inl KeyError"
| "first_item (JScalar x) = Inl TypeError"

definition progress_of_data :: "json \<Rightarrow> error + pyset" where
  "progress_of_data data =
     (if \<not> truthy data then Inr []
      else case first_item data of
             Inl e \<Rightarrow> Inl e
           | Inr x \<Rightarrow> if \<not> is_int x then Inr [] else py_set data)"

definition load_progress :: "world \<Rightarrow> error + pyset" where
  "load_progress w =
     (case progress_file w of
        Missing \<Rightarrow> Inr []
      | Unreadable \<Rightarrow> Inl (OSError ProgressFile)
      | Content None \<Rightarrow> Inl JSONDecodeError
      | Content (Some data) \<Rightarrow> progress_of_data data)"

text \<open>
  \<^verbatim>\<open>save_progress\<close> (lines 86 to 88).  \<^verbatim>\<open>open(PROGRESS_FILE, "w")\<close> empties the file before
  \<^verbatim>\<open>sorted(done)\<close> is evaluated, so a \<^verbatim>\<open>TypeError\<close> of the sort leaves an empty file, which
  is not JSON.
\<close>

definition save_progress :: "pyset \<Rightarrow> world \<Rightarrow> (error + unit) \<times> world" where
  "save_progress dn w =
     (let w1 = w\<lparr>disk_pos := Suc (disk_pos w)\<rparr> in
      if disk w (disk_pos w) then (Inl (OSError ProgressFile), w1)
      else case py_sorted dn of
             Inl e \<Rightarrow> (Inl e, w1\<lparr>progress_file := Content None\<rparr>)
           | Inr xs \<Rightarrow> (Inr (), w1\<lparr>progress_file := Content (Some (JArr (map JScalar xs)))\<rparr>))"

text \<open>The append of lines 200 and 201.\<close>

definition append_output :: "string \<Rightarrow> world \<Rightarrow> (error + unit) \<times> world" where
  "append_output text w =
     (let w1 = w\<lparr>disk_pos := Suc (disk_pos w)\<rparr> in
      if disk w (disk_pos w) then (Inl (OSError OutputFile), w1)
      else (Inr (), w1\<lparr>output_file := output_file w @ text\<rparr>))"

subsection \<open>The remote generation client\<close>

text \<open>\<^verbatim>\<open>_fal_request\<close> (lines 91 to 103): one call of the remote service.\<close>

definition fal_request :: "request \<Rightarrow> world \<Rightarrow> (error + json) \<times> world" where
  "fal_request req w =
     (let w1 = w\<lparr>net_pos := Suc (net_pos w)\<rparr> in
      case net w (net_pos w) req of
        Fails t \<Rightarrow> (Inl (Transport t), w1)
      | Reply j \<Rightarrow> (Inr j, w1))"

text \<open>
  The poll loop of \<^verbatim>\<open>generate_one\<close> (lines 120 to 132).  The loop has no bound of its
  own: \<open>fuel\<close> is the number of polls allowed, and \<open>None\<close> says the loop is still polling
  when they are used up.
\<close>

fun poll_status :: "nat \<Rightarrow> string \<Rightarrow> json \<Rightarrow> world \<Rightarrow> ((error + unit) \<times> world) option" where
  "poll_status 0 api_key request_id w = None"
| "poll_status (Suc fuel) api_key request_id w =
     (case fal_request (GetStatus api_key request_id) w of
        (Inl e, w1) \<Rightarrow> Some (Inl e, w1)
      | (Inr status, w1) \<Rightarrow>
          (case py_get status ''status'' of
             Inl e \<Rightarrow> Some (Inl e, w1)
           | Inr state \<Rightarrow>
               if state = JScalar (SStr ''COMPLETED'') then Some (Inr (), w1)
               else if state = JScalar (SStr ''FAILED'') \<or> state = JScalar (SStr ''CANCELLED'')
               then Some (Inl (JobFailed state status), w1)
               else poll_status fuel api_key request_id (sleep 2 w1)))"

text \<open>Lines 135 to 137: what \<^verbatim>\<open>generate_one\<close> makes of the result payload.\<close>

definition result_text :: "json \<Rightarrow> error + string" where
  "result_text result =
     (case py_get result ''error'' of
        Inl e \<Rightarrow> Inl e
      | Inr err \<Rightarrow>
          if truthy err then Inl (ResultError err)
          else (case py_getitem result ''output'' of
                  Inl e \<Rightarrow> Inl e
                | Inr (JScalar (SStr s)) \<Rightarrow> Inr (py_strip s)
                | Inr j \<Rightarrow> Inl AttributeError))"

text \<open>\<^verbatim>\<open>generate_one\<close> (lines 106 to 137).\<close>

definition generate_one ::
  "nat \<Rightarrow> string \<Rightarrow> string \<Rightarrow> string \<Rightarrow> world \<Rightarrow> ((error + string) \<times> world) option" where
  "generate_one fuel api_key prompt model w =
     (case fal_request (Submit api_key model prompt) w of
        (Inl e, w1) \<Rightarrow> Some (Inl e, w1)
      | (Inr submit, w1) \<Rightarrow>
          (case py_getitem submit ''request_id'' of
             Inl e \<Rightarrow> Some (Inl e, w1)
           | Inr request_id \<Rightarrow>
               (case poll_status fuel api_key request_id w1 of
                  None \<Rightarrow> None
                | Some (Inl e, w2) \<Rightarrow> Some (Inl e, w2)
                | Some (Inr u, w2) \<Rightarrow>
                    (case fal_request (GetResult api_key request_id) w2 of
                       (Inl e, w3) \<Rightarrow> Some (Inl e, w3)
                     | (Inr result, w3) \<Rightarrow> Some (result_text result, w3)))))"

subsection \<open>The batch partition\<close>

text \<open>
  \<^verbatim>\<open>range(i, stop, step)\<close> for a positive step, and the loop of lines 166 to 168.  For a
  step of zero \<^verbatim>\<open>range\<close> raises \<^verbatim>\<open>ValueError\<close>; for a negative step \<^verbatim>\<open>range(0, len, step)\<close>
  is empty, and so is the list of batches.
\<close>

function range_from :: "nat \<Rightarrow> nat \<Rightarrow> nat \<Rightarrow> nat list" where
  "range_from i stop step =
     (if step = 0 \<or> stop \<le> i then [] else i # range_from (i + step) stop step)"
  by pat_completeness auto
termination
  by (relation "measure (\<lambda>(i, stop, step). stop - i)") auto

definition make_batches :: "string list \<Rightarrow> int \<Rightarrow> error + string list list" where
  "make_batches sentences batch_size =
     (if batch_size = 0 then Inl ValueError
      else if batch_size < 0 then Inr []
      else Inr (map (\<lambda>i. take (nat batch_size) (drop i sentences))
                  (range_from 0 (length sentences) (nat batch_size))))"

subsection \<open>The batch driver\<close>

text \<open>\<^verbatim>\<open>xs[:k]\<close>: a negative \<open>k\<close> counts from the end.\<close>

definition py_slice_to :: "int \<Rightarrow> 'a list \<Rightarrow> 'a list" where
  "py_slice_to k xs = (if 0 \<le> k then take (nat k) xs else take (length xs - nat (- k)) xs)"

text \<open>Lines 192 and 193: the prompt of a batch.\<close>

definition build_prompt :: "string list \<Rightarrow> string" where
  "build_prompt batch =
     ''Generate question-and-answer pairs for each sentence below.'' @ [LF, LF] @
     ''Sentences:'' @ [LF] @ join [LF] (map (\<lambda>s. ''- '' @ s) batch) @ [LF]"

text \<open>
  Lines 197 to 207: the \<^verbatim>\<open>try\<close> block of one batch with its handler
  \<^verbatim>\<open>except Exception\<close>, which catches every exception of the model but \<open>SystemExit\<close>
  (none is raised here).  The set \<^verbatim>\<open>done\<close> is updated in place by \<^verbatim>\<open>done.add\<close> before
  \<^verbatim>\<open>save_progress\<close> runs, so it keeps the index when the save raises.
\<close>

definition process_batch ::
  "nat \<Rightarrow> string \<Rightarrow> string \<Rightarrow> string list \<Rightarrow> nat \<Rightarrow> pyset \<times> world \<Rightarrow> (pyset \<times> world) option" where
  "process_batch fuel api_key model batch batch_idx st =
     (case st of (dn, w) \<Rightarrow>
      (case generate_one fuel api_key (build_prompt batch) model w of
         None \<Rightarrow> None
       | Some (Inl e, w1) \<Rightarrow> Some (dn, py_print (BatchFailed e) w1)
       | Some (Inr raw, w1) \<Rightarrow>
           (let formatted = format_output raw in
            case append_output (formatted @ [LF]) w1 of
              (Inl e, w2) \<Rightarrow> Some (dn, py_print (BatchFailed e) w2)
            | (Inr u, w2) \<Rightarrow>
                (let dn' = py_add dn (SInt (int batch_idx)) in
                 case save_progress dn' w2 of
                   (Inl e, w3) \<Rightarrow> Some (dn', py_print (BatchFailed e) w3)
                 | (Inr v, w3) \<Rightarrow>
                     Some (dn', py_print (BatchOK (count_list formatted LF + 1)) w3)))))"

text \<open>
  The loop of lines 190 to 207 over \<^verbatim>\<open>enumerate(to_do, 1)\<close>; \<open>n_todo\<close> is
  \<^verbatim>\<open>len(to_do)\<close>.  \<^verbatim>\<open>batches[batch_idx]\<close> is read outside the \<^verbatim>\<open>try\<close> block.
\<close>

fun run_batches ::
  "nat \<Rightarrow> string \<Rightarrow> string \<Rightarrow> string list list \<Rightarrow> nat \<Rightarrow> (nat \<times> nat) list \<Rightarrow> pyset \<times> world
     \<Rightarrow> ((error + pyset) \<times> world) option" where
  "run_batches fuel api_key model batches n_todo [] st = Some (Inr (fst st), snd st)"
| "run_batches fuel api_key model batches n_todo ((i, batch_idx) # rest) st =
     (if batch_idx < length batches then
        (let batch = batches ! batch_idx;
             w0 = py_print (BatchStart i n_todo batch_idx (length batch)) (snd st)
         in case process_batch fuel api_key model batch batch_idx (fst st, w0) of
              None \<Rightarrow> None
            | Some st' \<Rightarrow> run_batches fuel api_key model batches n_todo rest st')
      else Some (Inl IndexError, snd st))"

text \<open>The previews of the dry run (lines 177 to 179).\<close>

fun dry_run :: "string list list \<Rightarrow> nat list \<Rightarrow> world \<Rightarrow> (error + unit) \<times> world" where
  "dry_run batches [] w = (Inr (), w)"
| "dry_run batches (idx # rest) w =
     (if idx < length batches then
        (case batches ! idx of
           [] \<Rightarrow> (Inl IndexError, w)
         | s # ss \<Rightarrow> dry_run batches rest (py_print (Preview idx (take 60 s)) w))
      else (Inl IndexError, w))"

text \<open>
  \<^verbatim>\<open>main\<close> (lines 152 to 213), the parsed arguments given.  \<open>Inl e\<close> is an exception that
  leaves \<^verbatim>\<open>main\<close>, \<open>Inr ()\<close> its return; \<open>None\<close> says that a poll loop has used up \<open>fuel\<close>.
\<close>

definition pending_batches :: "pyset \<Rightarrow> nat \<Rightarrow> nat list" where
  "pending_batches dn count = filter (\<lambda>i. \<not> py_in (SInt (int i)) dn) [0..<count]"

definition main :: "nat \<Rightarrow> args \<Rightarrow> world \<Rightarrow> ((error + unit) \<times> world) option" where
  "main fuel a w =
     (case load_sentences w of
        Inl e \<Rightarrow> Some (Inl e, w)
      | Inr sentences \<Rightarrow>
     (case load_progress w of
        Inl e \<Rightarrow> Some (Inl e, w)
      | Inr dn \<Rightarrow>
     (case make_batches sentences (arg_batch_size a) of
        Inl e \<Rightarrow> Some (Inl e, w)
      | Inr batches \<Rightarrow>
     (let pending = pending_batches dn (length batches);
          w1 = py_print (Summary (length sentences) (length batches) (length dn)
                           (length pending)) w
      in if arg_n a = 0
         then Some (dry_run batches (take 10 pending) (py_print DryRunHeader w1))
         else
     (case load_key ''FAL_KEY'' w1 of
        Inl e \<Rightarrow> Some (Inl e, w1)
      | Inr api_key \<Rightarrow>
          if api_key = None \<or> api_key = Some []
          then Some (Inl (SystemExit 1), py_print NoKey w1)
          else
     (let to_do = py_slice_to (arg_n a) pending;
          w2 = py_print (Generating (length to_do) (arg_model a)) w1
      in case run_batches fuel (the api_key) (arg_model a) batches (length to_do)
                (zip [1..<Suc (length to_do)] to_do) (dn, w2) of
           None \<Rightarrow> None
         | Some (Inl e, w3) \<Rightarrow> Some (Inl e, w3)
         | Some (Inr dn', w3) \<Rightarrow>
             Some (Inr (),
                   py_print (if 0 < length pending - length to_do
                             then StillRemaining (length pending - length to_do)
                             else AllGenerated) w3)))))))"

subsection \<open>Notions used by the statements\<close>

text \<open>A trimmed line, a line without a line break, and a trimmed non-empty line that ends
  with the stop marker.\<close>

definition stripped :: "string \<Rightarrow> bool" where
  "stripped s = (s = [] \<or> (\<not> is_space (hd s) \<and> \<not> is_space (last s)))"

definition no_linebreak :: "string \<Rightarrow> bool" where
  "no_linebreak s = list_all (\<lambda>c. \<not> is_linebreak c) s"

definition clean_line :: "string \<Rightarrow> bool" where
  "clean_line l = (l \<noteq> [] \<and> stripped l \<and> no_linebreak l \<and> endswith l stop_marker)"

text \<open>\<^verbatim>\<open>xs[a:b]\<close> for \<open>0 \<le> a\<close>.\<close>

definition slice :: "'a list \<Rightarrow> nat \<Rightarrow> nat \<Rightarrow> 'a list" where
  "slice xs a b = take (b - a) (drop a xs)"




text \<open>What a run leaves behind: its result, the two files, the console and the number of
  remote calls.\<close>

definition observe ::
  "((error + unit) \<times> world) option
     \<Rightarrow> ((error + unit) \<times> json option stored \<times> string \<times> line list \<times> nat) option" where
  "observe r =
     map_option (\<lambda>(res, w). (res, progress_file w, output_file w, console w, net_pos w)) r"

subsection \<open>A world to build instances from\<close>

text \<open>No file exists, every remote call fails and no write fails.\<close>

definition quiet_world :: world where
  "quiet_world =
     \<lparr>corpus_file = Missing, env_file = Missing, progress_file = Missing, output_file = [],
      net = (\<lambda>pos req. Fails URLError), net_pos = 0, disk = (\<lambda>pos. False), disk_pos = 0,
      console = [], slept = 0\<rparr>"

text \<open>
  A remote service for the instances: it accepts every job, answers the status request
  made as call number \<open>pos\<close> with the state \<open>states pos\<close>, and answers a result request with
  the payload \<open>result\<close>.
\<close>

definition service :: "(nat \<Rightarrow> string) \<Rightarrow> json \<Rightarrow> nat \<Rightarrow> request \<Rightarrow> response" where
  "service states result pos req =
     (case req of
        Submit k m p \<Rightarrow> Reply (JObj [(''request_id'', JScalar (SInt (int pos)))])
      | GetStatus k rid \<Rightarrow> Reply (JObj [(''status'', JScalar (SStr (states pos)))])
      | GetResult k rid \<Rightarrow> Reply result)"

text \<open>The states on which the poll loop raises its job failure.\<close>

definition failed_state :: "json \<Rightarrow> bool" where
  "failed_state state = (state = JScalar (SStr ''FAILED'') \<or> state = JScalar (SStr ''CANCELLED''))"

text \<open>Two worlds of which the second differs from the first at most in the count of remote
  calls and in the time slept.\<close>

definition untouched :: "world \<Rightarrow> world \<Rightarrow> bool" where
  "untouched w w' =
     (corpus_file w' = corpus_file w \<and> env_file w' = env_file w
      \<and> progress_file w' = progress_file w \<and> output_file w' = output_file w
      \<and> net w' = net w \<and> disk w' = disk w \<and> disk_pos w' = disk_pos w
      \<and> console w' = console w)"

text \<open>A world with a corpus, a key in \<^verbatim>\<open>~/.env\<close> and an empty output file, and a result
  payload of two lines.\<close>

definition example_world ::
  "string list \<Rightarrow> json option stored \<Rightarrow> (nat \<Rightarrow> request \<Rightarrow> response) \<Rightarrow> (nat \<Rightarrow> bool) \<Rightarrow> world" where
  "example_world corpus progress remote faults =
     \<lparr>corpus_file = Content corpus, env_file = Content [''# keys'', ''FAL_KEY = secret''],
      progress_file = progress, output_file = [], net = remote, net_pos = 0,
      disk = faults, disk_pos = 0, console = [], slept = 0\<rparr>"

definition reply_text :: json where
  "reply_text =
     JObj [(''output'', JScalar (SStr ('' a Q: x? A: y '' @ [LF] @ ''b Q: z? A: w<stop>'')))]"


definition observe_loop ::
  "((error + pyset) \<times> world) option
     \<Rightarrow> ((error + pyset) \<times> json option stored \<times> string \<times> line list) option" where
  "observe_loop r = map_option (\<lambda>(res, w). (res, progress_file w, output_file w, console w)) r"

section \<open>Properties\<close>

subsection \<open>Strings and the output formatter\<close>

lemma endswith_iff: "endswith s suf \<longleftrightarrow> (\<exists>p. s = p @ suf)"
proof
  assume "endswith s suf"
  then have "s = take (length s - length suf) s @ suf"
    unfolding endswith_def by (metis append_take_drop_id)
  then show "\<exists>p. s = p @ suf" ..
next
  assume "\<exists>p. s = p @ suf"
  then show "endswith s suf" unfolding endswith_def by auto
qed

lemma stripped_py_strip: "stripped (py_strip s)"
proof -
  let ?a = "dropWhile is_space s"
  let ?b = "dropWhile is_space (rev ?a)"
  show ?thesis
  proof (cases "?b = []")
    case True
    then show ?thesis by (simp add: py_strip_def stripped_def)
  next
    case False
    then have hb: "\<not> is_space (hd ?b)" by (rule hd_dropWhile)
    from False have ne: "?a \<noteq> []" by (metis dropWhile.simps(1) rev.simps(1))
    then have ha: "\<not> is_space (hd ?a)" by (rule hd_dropWhile)
    from ne have "hd ?a \<in> set (rev ?a)" by simp
    from this ha have "last ?b = last (rev ?a)" by (rule dropWhile_last)
    also have "\<dots> = hd ?a" using ne by (simp add: last_rev)
    finally have "last ?b = hd ?a" .
    then have "hd (rev ?b) = hd ?a" using False by (simp add: hd_rev)
    moreover have "last (rev ?b) = hd ?b" using False by (simp add: last_rev)
    ultimately show ?thesis using ha hb False by (simp add: py_strip_def stripped_def)
  qed
qed

lemma py_strip_stripped: "stripped s \<Longrightarrow> py_strip s = s"
proof (cases "s = []")
  case True
  then show ?thesis by (simp add: py_strip_def)
next
  case False
  assume "stripped s"
  with False have h: "\<not> is_space (hd s)" and l: "\<not> is_space (last s)"
    by (auto simp: stripped_def)
  from False h have "dropWhile is_space s = s" by (simp add: dropWhile_eq_self_iff)
  moreover from False l have "dropWhile is_space (rev s) = rev s"
    by (simp add: dropWhile_eq_self_iff hd_rev)
  ultimately show ?thesis by (simp add: py_strip_def)
qed

lemma set_py_strip: "set (py_strip s) \<subseteq> set s"
proof
  fix x
  assume "x \<in> set (py_strip s)"
  then have "x \<in> set (dropWhile is_space (rev (dropWhile is_space s)))"
    by (simp add: py_strip_def)
  then have "x \<in> set (rev (dropWhile is_space s))" by (rule set_dropWhileD)
  then have "x \<in> set (dropWhile is_space s)" by simp
  then show "x \<in> set s" by (rule set_dropWhileD)
qed

lemma no_linebreak_py_strip: "no_linebreak s \<Longrightarrow> no_linebreak (py_strip s)"
  using set_py_strip[of s] by (auto simp: no_linebreak_def list_all_iff)

lemma stop_marker_props:
  "stop_marker \<noteq> []" "no_linebreak stop_marker" "\<not> is_space (last stop_marker)"
  by (simp_all add: stop_marker_def no_linebreak_def is_linebreak_def is_space_def)

lemma clean_line_step:
  assumes "no_linebreak l" "py_strip l \<noteq> []"
  shows "clean_line (if \<not> endswith (py_strip l) stop_marker then py_strip l @ stop_marker else py_strip l)"
proof -
  let ?t = "py_strip l"
  have st: "stripped ?t" by (rule stripped_py_strip)
  have nl: "no_linebreak ?t" using assms(1) by (rule no_linebreak_py_strip)
  show ?thesis
  proof (cases "endswith ?t stop_marker")
    case True
    then show ?thesis using st nl assms(2) by (simp add: clean_line_def)
  next
    case False
    have "stripped (?t @ stop_marker)"
      using st assms(2) stop_marker_props by (simp add: stripped_def)
    moreover have "no_linebreak (?t @ stop_marker)"
      using nl stop_marker_props by (simp add: no_linebreak_def)
    moreover have "endswith (?t @ stop_marker) stop_marker" by (auto simp: endswith_iff)
    ultimately show ?thesis using False assms(2) by (simp add: clean_line_def)
  qed
qed

lemma format_lines_clean:
  "list_all no_linebreak ls \<Longrightarrow> list_all clean_line (format_lines ls)"
proof (induction ls)
  case Nil
  then show ?case by simp
next
  case (Cons l ls)
  then have nl: "no_linebreak l" and rest: "list_all clean_line (format_lines ls)" by simp_all
  show ?case
  proof (cases "py_strip l = []")
    case True
    then show ?thesis using rest by simp
  next
    case False
    with nl have "clean_line (if \<not> endswith (py_strip l) stop_marker then py_strip l @ stop_marker else py_strip l)"
      by (rule clean_line_step)
    then show ?thesis using False rest by (simp add: Let_def)
  qed
qed

lemma format_lines_fixed:
  "list_all clean_line ls \<Longrightarrow> format_lines ls = ls"
proof (induction ls)
  case Nil
  then show ?case by simp
next
  case (Cons l ls)
  then have c: "clean_line l" and "format_lines ls = ls" by simp_all
  moreover from c have "py_strip l = l" by (simp add: clean_line_def py_strip_stripped)
  ultimately show ?case by (simp add: clean_line_def)
qed

lemma splitlines_from_break:
  "is_linebreak c \<Longrightarrow>
   splitlines_from cur (c # cs) =
     rev cur # splitlines_from [] (if c = CR \<and> cs \<noteq> [] \<and> hd cs = LF then tl cs else cs)"
  by (cases cs) simp_all

lemma splitlines_from_char:
  "\<not> is_linebreak c \<Longrightarrow> splitlines_from cur (c # cs) = splitlines_from (c # cur) cs"
  by simp

declare splitlines_from.simps(2) [simp del]

lemma splitlines_from_no_linebreak:
  "list_all (\<lambda>c. \<not> is_linebreak c) cur \<Longrightarrow> list_all no_linebreak (splitlines_from cur s)"
proof (induction s arbitrary: cur rule: length_induct)
  case (1 s)
  show ?case
  proof (cases s)
    case Nil
    then show ?thesis using "1.prems" by (simp add: no_linebreak_def)
  next
    case (Cons c cs)
    show ?thesis
    proof (cases "is_linebreak c")
      case True
      let ?rest = "if c = CR \<and> cs \<noteq> [] \<and> hd cs = LF then tl cs else cs"
      have "length ?rest < length s" using Cons by auto
      then have "list_all no_linebreak (splitlines_from [] ?rest)"
        using "1.IH" by simp
      moreover have "no_linebreak (rev cur)" using "1.prems" by (simp add: no_linebreak_def)
      ultimately show ?thesis using Cons True by (simp add: splitlines_from_break)
    next
      case False
      have "length cs < length s" using Cons by simp
      moreover have "list_all (\<lambda>c. \<not> is_linebreak c) (c # cur)" using False "1.prems" by simp
      ultimately have "list_all no_linebreak (splitlines_from (c # cur) cs)"
        using "1.IH" by blast
      then show ?thesis using Cons False by (simp add: splitlines_from_char)
    qed
  qed
qed

lemma splitlines_no_linebreak: "list_all no_linebreak (splitlines s)"
  unfolding splitlines_def by (rule splitlines_from_no_linebreak) simp

lemma splitlines_from_line:
  "no_linebreak l \<Longrightarrow> splitlines_from cur (l @ rest) = splitlines_from (rev l @ cur) rest"
  by (induction l arbitrary: cur) (simp_all add: no_linebreak_def splitlines_from_char)

lemma LF_props: "is_linebreak LF" "LF \<noteq> CR"
  by (simp_all add: is_linebreak_def LF_def CR_def)

lemma splitlines_from_LF: "splitlines_from cur (LF # cs) = rev cur # splitlines_from [] cs"
  using LF_props by (simp add: splitlines_from_break)

lemma splitlines_join:
  "list_all (\<lambda>l. l \<noteq> [] \<and> no_linebreak l) ls \<Longrightarrow> splitlines (join [LF] ls) = ls"
proof (induction "[LF]" ls rule: join.induct)
  case 1
  then show ?case by (simp add: splitlines_def)
next
  case (2 x)
  then have "splitlines_from [] (x @ []) = splitlines_from (rev x @ []) []"
    by (intro splitlines_from_line) simp
  then show ?case using 2 by (simp add: splitlines_def)
next
  case (3 x y ys)
  then have "splitlines_from [] (x @ LF # join [LF] (y # ys)) = splitlines_from (rev x @ []) (LF # join [LF] (y # ys))"
    by (intro splitlines_from_line) simp
  then show ?case using 3 by (simp add: splitlines_def splitlines_from_LF)
qed

lemma clean_lines_splittable:
  "list_all clean_line ls \<Longrightarrow> list_all (\<lambda>l. l \<noteq> [] \<and> no_linebreak l) ls"
  by (induction ls) (simp_all add: clean_line_def)

text \<open>The equations that evaluate the string functions on a literal.\<close>

lemmas str_eval = format_output_def splitlines_def splitlines_from.simps py_strip_def
  endswith_def stop_marker_def is_linebreak_def is_space_def LF_def CR_def Let_def
  clean_line_def stripped_def no_linebreak_def




subsection \<open>C8: the formatter is idempotent\<close>

text \<open>
  Claim C8.  The output formatter is idempotent: for every raw text, formatting the
  formatted text gives the formatted text again.  Said the other way round: a text made of
  trimmed, non-empty lines that each end with the stop marker, joined by newlines, is a
  fixed point of \<open>format_output\<close>.
\<close>

theorem format_output_idempotent:
  "format_output (format_output raw) = format_output raw
   \<and> (list_all clean_line ls \<longrightarrow> format_output (join [LF] ls) = join [LF] ls)"
proof
  let ?ls = "format_lines (splitlines raw)"
  have c: "list_all clean_line ?ls"
    using splitlines_no_linebreak by (rule format_lines_clean)
  then have "splitlines (join [LF] ?ls) = ?ls"
    by (intro splitlines_join clean_lines_splittable)
  then show "format_output (format_output raw) = format_output raw"
    using c by (simp add: format_output_def format_lines_fixed)
next
  show "list_all clean_line ls \<longrightarrow> format_output (join [LF] ls) = join [LF] ls"
  proof
    assume c: "list_all clean_line ls"
    then have "splitlines (join [LF] ls) = ls"
      by (intro splitlines_join clean_lines_splittable)
    then show "format_output (join [LF] ls) = join [LF] ls"
      using c by (simp add: format_output_def format_lines_fixed)
  qed
qed

text \<open>An instance: a raw text with a blank line and surrounding spaces, and two clean lines.\<close>

theorem format_output_idempotent_witness:
  "format_output (format_output ('' a '' @ [LF, LF] @ ''b<stop> '')) = format_output ('' a '' @ [LF, LF] @ ''b<stop> '')
   \<and> list_all clean_line [''a<stop>'', ''b<stop>'']
   \<and> format_output (join [LF] [''a<stop>'', ''b<stop>'']) = ''a<stop>'' @ [LF] @ ''b<stop>''"
proof -
  have c: "list_all clean_line [''a<stop>'', ''b<stop>'']"
    by (simp add: str_eval)
  from format_output_idempotent [of "'' a '' @ [LF, LF] @ ''b<stop> ''" "[''a<stop>'', ''b<stop>'']"] c
  show ?thesis by simp
qed

subsection \<open>C9: the lines written end with the stop marker\<close>




subsection \<open>C4: the batch partition\<close>

lemma ceil_div_nat:
  fixes a k :: nat
  assumes "0 < k"
  shows "\<lceil>real a / real k\<rceil> = int ((a + k - 1) div k)"
proof (rule ceiling_unique)
  let ?q = "(a + k - 1) div k"
  let ?r = "(a + k - 1) mod k"
  have eq: "a + k - 1 = ?q * k + ?r" by simp
  have r: "?r < k" using assms by simp
  have up: "a \<le> ?q * k" using eq r by linarith
  have lo: "?q * k < a + k" using eq assms by linarith
  have "real a \<le> real (?q * k)" using up by (simp only: of_nat_le_iff)
  then show "real a / real k \<le> of_int (int ?q)"
    using assms by (simp add: pos_divide_le_eq)
  have "real (?q * k) < real (a + k)" using lo by (simp only: of_nat_less_iff)
  then have "(real ?q - 1) * real k < real a" by (simp add: algebra_simps)
  then show "of_int (int ?q) - 1 < real a / real k"
    using assms by (simp add: pos_less_divide_eq)
qed

lemma div_step:
  fixes i stop step :: nat
  assumes "0 < step" "i < stop"
  shows "(stop - i + step - 1) div step = Suc ((stop - (i + step) + step - 1) div step)"
proof -
  define x where "x = stop - (i + step) + step - 1"
  define y where "y = stop - i + step - 1"
  have add: "\<And>z. (z + step) div step = Suc (z div step)" using assms(1) by simp
  have "y div step = Suc (x div step)"
  proof (cases "i + step \<le> stop")
    case True
    then have "y = x + step" using assms unfolding x_def y_def by linarith
    then show ?thesis using add by (simp only:)
  next
    case False
    define z where "z = stop - i - 1"
    have "y = z + step" using assms unfolding z_def y_def by linarith
    then have "y div step = Suc (z div step)" using add by (simp only:)
    moreover have "z < step" using False assms unfolding z_def by linarith
    moreover have "x < step" using False assms unfolding x_def by linarith
    ultimately show ?thesis by simp
  qed
  then show ?thesis unfolding x_def y_def .
qed

lemma range_from_eq:
  "0 < k \<Longrightarrow> range_from i n k = map (\<lambda>j. i + j * k) [0..<(n - i + k - 1) div k]"
proof (induction i n k rule: range_from.induct)
  case (1 i stop step)
  show ?case
  proof (cases "stop \<le> i")
    case True
    then show ?thesis using "1.prems" by simp
  next
    case False
    then have d: "(stop - i + step - 1) div step = Suc ((stop - (i + step) + step - 1) div step)"
      using "1.prems" by (intro div_step) simp_all
    have "range_from i stop step = i # range_from (i + step) stop step"
      using False "1.prems" by simp
    also have "\<dots> = i # map (\<lambda>j. i + step + j * step) [0..<(stop - (i + step) + step - 1) div step]"
      using "1.IH" False "1.prems" by simp
    also have "\<dots> = map (\<lambda>j. i + j * step) (0 # map Suc [0..<(stop - (i + step) + step - 1) div step])"
      by (simp add: comp_def)
    also have "\<dots> = map (\<lambda>j. i + j * step) [0..<Suc ((stop - (i + step) + step - 1) div step)]"
      by (simp add: upt_conv_Cons map_Suc_upt del: upt_Suc)
    finally show ?thesis using d by simp
  qed
qed

lemma concat_take_drop:
  "concat (map (\<lambda>j. take k (drop (j * k) xs)) [0..<m]) = take (m * k) xs"
proof (induction m)
  case 0
  then show ?case by simp
next
  case (Suc m)
  have "take (m * k) xs @ take k (drop (m * k) xs) = take (m * k + k) xs"
    by (simp add: take_add)
  then show ?case using Suc by (simp add: add.commute)
qed

lemma make_batches_pos:
  assumes "0 < bs"
  shows "make_batches sentences bs =
     Inr (map (\<lambda>j. take (nat bs) (drop (j * nat bs) sentences))
            [0..<(length sentences + nat bs - 1) div nat bs])"
  using assms by (simp add: make_batches_def range_from_eq comp_def del: range_from.simps)

lemma ceil_bounds:
  fixes a k :: nat
  assumes "0 < k"
  shows "a \<le> ((a + k - 1) div k) * k" and "p < a \<Longrightarrow> p div k < (a + k - 1) div k"
proof -
  let ?q = "(a + k - 1) div k"
  have eq: "a + k - 1 = ?q * k + (a + k - 1) mod k" by simp
  have r: "(a + k - 1) mod k < k" using assms by simp
  show "a \<le> ?q * k" using eq r by linarith
  then show "p < a \<Longrightarrow> p div k < ?q"
    using assms by (metis div_less_iff_less_mult leD leI less_le_trans mult.commute order.strict_trans2)
qed

text \<open>
  Claim C4.  For every sentence sequence and every batch size \<open>bs > 0\<close>, the partition
  has \<open>\<lceil>len / bs\<rceil>\<close> batches, batch \<open>i\<close> is the slice of the sentences from
  \<open>i * bs\<close> up to \<open>min ((i + 1) * bs) len\<close>, the batches in their order make up the
  sentence sequence again, and every position of the sequence lies in the range of exactly
  one batch.
\<close>

theorem partition_exhaustive:
  assumes "0 < bs"
  shows "\<exists>batches. make_batches sentences bs = Inr batches
     \<and> int (length batches) = \<lceil>real (length sentences) / real_of_int bs\<rceil>
     \<and> (\<forall>i<length batches.
           batches ! i = slice sentences (i * nat bs) (min ((i + 1) * nat bs) (length sentences)))
     \<and> concat batches = sentences
     \<and> (\<forall>p<length sentences.
           \<exists>!i. i < length batches \<and> i * nat bs \<le> p
                \<and> p < min ((i + 1) * nat bs) (length sentences))"
proof -
  define k where "k = nat bs"
  define m where "m = (length sentences + k - 1) div k"
  define batches where "batches = map (\<lambda>j. take k (drop (j * k) sentences)) [0..<m]"
  have k: "0 < k" using assms by (simp add: k_def)
  have mb: "make_batches sentences bs = Inr batches"
    using make_batches_pos [OF assms] by (simp add: batches_def m_def k_def)
  have len: "length batches = m" by (simp add: batches_def)
  have "real_of_int bs = real k" using assms by (simp add: k_def)
  then have ceil: "int (length batches) = \<lceil>real (length sentences) / real_of_int bs\<rceil>"
    using ceil_div_nat [OF k, of "length sentences"] len by (simp add: m_def)
  have sl: "\<forall>i<length batches.
           batches ! i = slice sentences (i * k) (min ((i + 1) * k) (length sentences))"
  proof (intro allI impI)
    fix i assume "i < length batches"
    then have "batches ! i = take k (drop (i * k) sentences)" by (simp add: batches_def)
    also have "\<dots> = take (min ((i + 1) * k) (length sentences) - i * k) (drop (i * k) sentences)"
      by (cases "(i + 1) * k \<le> length sentences") (simp_all add: min_def)
    finally show "batches ! i = slice sentences (i * k) (min ((i + 1) * k) (length sentences))"
      by (simp add: slice_def)
  qed
  have cover: "length sentences \<le> m * k" unfolding m_def using k by (rule ceil_bounds(1))
  have "concat batches = take (m * k) sentences" by (simp add: batches_def concat_take_drop)
  then have cc: "concat batches = sentences" using cover by simp
  have uniq: "\<forall>p<length sentences.
           \<exists>!i. i < length batches \<and> i * k \<le> p \<and> p < min ((i + 1) * k) (length sentences)"
  proof (intro allI impI)
    fix p assume p: "p < length sentences"
    show "\<exists>!i. i < length batches \<and> i * k \<le> p \<and> p < min ((i + 1) * k) (length sentences)"
    proof (rule ex1I [of _ "p div k"])
      have "p div k < m" unfolding m_def using k p by (rule ceil_bounds(2))
      moreover have "p div k * k \<le> p" by simp
      moreover have "p < (p div k + 1) * k" using k
        by (metis Suc_eq_plus1 dividend_less_div_times mult.commute add.commute mult_Suc)
      ultimately show "p div k < length batches \<and> p div k * k \<le> p
           \<and> p < min ((p div k + 1) * k) (length sentences)"
        using p len by simp
    next
      fix i
      assume "i < length batches \<and> i * k \<le> p \<and> p < min ((i + 1) * k) (length sentences)"
      then have "i * k \<le> p" "p < (i + 1) * k" by simp_all
      then show "i = p div k" using k
        by (metis Suc_eq_plus1 div_nat_eqI mult.commute)
    qed
  qed
  show ?thesis using mb ceil sl cc uniq unfolding k_def by blast
qed


text \<open>An instance: five sentences in batches of two.\<close>

theorem partition_exhaustive_witness:
  "(0::int) < 2
   \<and> make_batches [''a'', ''b'', ''c'', ''d'', ''e''] 2 = Inr [[''a'', ''b''], [''c'', ''d''], [''e'']]
   \<and> \<lceil>real (length [''a'', ''b'', ''c'', ''d'', ''e'']) / real_of_int 2\<rceil> = 3
   \<and> [''a'', ''b'', ''c'', ''d'', ''e''] ! 4 = [[''a'', ''b''], [''c'', ''d''], [''e'']] ! 2 ! 0"
proof -
  let ?S = "[''a'', ''b'', ''c'', ''d'', ''e'']"
  have pos: "(0::int) < 2" by simp
  have ev: "make_batches ?S 2 = Inr [[''a'', ''b''], [''c'', ''d''], [''e'']]"
    by (simp add: make_batches_def)
  from partition_exhaustive [OF pos, of ?S] obtain batches where
    b: "make_batches ?S 2 = Inr batches"
    and c: "int (length batches) = \<lceil>real (length ?S) / real_of_int 2\<rceil>"
    by blast
  from b ev have "batches = [[''a'', ''b''], [''c'', ''d''], [''e'']]" by simp
  with c have "\<lceil>real (length ?S) / real_of_int 2\<rceil> = 3" by simp
  with pos ev show ?thesis by simp
qed

subsection \<open>C6: loading the progress\<close>







subsection \<open>C7: the outcomes of the remote generation client\<close>

lemma fal_request_net [simp]:
  "net (snd (fal_request req w)) = net w"
  "net_pos (snd (fal_request req w)) = Suc (net_pos w)"
  by (simp_all add: fal_request_def Let_def split: response.splits)










lemmas net_eval = generate_one_def fal_request_def service_def quiet_world_def result_text_def
  py_strip_def is_space_def sleep_def failed_state_def Let_def




subsection \<open>The remote calls leave the files and the console alone\<close>

lemma untouched_refl [simp]: "untouched w w"
  by (simp add: untouched_def)

lemma untouched_trans: "untouched w w1 \<Longrightarrow> untouched w1 w2 \<Longrightarrow> untouched w w2"
  by (simp add: untouched_def)

lemma fal_request_untouched: "fal_request req w = (r, w') \<Longrightarrow> untouched w w'"
  by (auto simp: fal_request_def Let_def untouched_def split: response.splits)

lemma poll_status_untouched:
  "poll_status fuel key rid w = Some (r, w') \<Longrightarrow> untouched w w'"
proof (induction fuel arbitrary: w)
  case 0
  then show ?case by simp
next
  case (Suc fuel)
  obtain r1 w1 where f: "fal_request (GetStatus key rid) w = (r1, w1)" by force
  have u1: "untouched w w1" using f by (rule fal_request_untouched)
  then have u2: "untouched w (sleep 2 w1)" by (simp add: untouched_def sleep_def)
  show ?case
  proof (cases "poll_status fuel key rid (sleep 2 w1) = Some (r, w')")
    case True
    from Suc.IH [OF this] u2 show ?thesis by (rule untouched_trans [rotated])
  next
    case False
    then have "w' = w1"
      using Suc.prems f by (auto split: sum.splits if_splits)
    then show ?thesis using u1 by simp
  qed
qed

lemma generate_one_untouched:
  assumes "generate_one fuel key prompt model w = Some (r, w')"
  shows "untouched w w'"
proof -
  obtain r1 w1 where f: "fal_request (Submit key model prompt) w = (r1, w1)" by force
  have u1: "untouched w w1" using f by (rule fal_request_untouched)
  show ?thesis
  proof (cases "\<exists>submit rid. r1 = Inr submit \<and> py_getitem submit ''request_id'' = Inr rid")
    case False
    then have "w' = w1" using assms f
      by (auto simp: generate_one_def split: sum.splits)
    then show ?thesis using u1 by simp
  next
    case True
    then obtain submit rid where s: "r1 = Inr submit" "py_getitem submit ''request_id'' = Inr rid"
      by blast
    show ?thesis
    proof (cases "poll_status fuel key rid w1")
      case None
      then show ?thesis using assms f s by (simp add: generate_one_def)
    next
      case (Some pr)
      obtain r2 w2 where pr: "pr = (r2, w2)" by force
      have "untouched w1 w2" using poll_status_untouched Some pr by blast
      with u1 have u2: "untouched w w2" by (rule untouched_trans)
      show ?thesis
      proof (cases r2)
        case (Inl e)
        then have "w' = w2" using assms f s Some pr by (simp add: generate_one_def)
        then show ?thesis using u2 by simp
      next
        case (Inr u)
        obtain r3 w3 where g: "fal_request (GetResult key rid) w2 = (r3, w3)" by force
        have "untouched w2 w3" using g by (rule fal_request_untouched)
        with u2 have u3: "untouched w w3" by (rule untouched_trans)
        have "w' = w3" using assms f s Some pr Inr g
          by (auto simp: generate_one_def split: sum.splits)
        then show ?thesis using u3 by simp
      qed
    qed
  qed
qed



subsection \<open>One batch, and the loop\<close>








lemma run_batches_step:
  assumes "idx < length batches"
    and "process_batch fuel key model (batches ! idx) idx
           (dn, py_print (BatchStart i n_todo idx (length (batches ! idx))) w) = Some st'"
  shows "run_batches fuel key model batches n_todo ((i, idx) # rest) (dn, w)
           = run_batches fuel key model batches n_todo rest st'"
  using assms by (simp add: Let_def)

lemma run_batches_no_exception:
  "\<forall>p\<in>set todo. snd p < length batches \<Longrightarrow>
   run_batches fuel key model batches n_todo todo st = Some (r, w') \<Longrightarrow> \<exists>dn'. r = Inr dn'"
proof (induction todo arbitrary: st)
  case Nil
  then show ?case by auto
next
  case (Cons p todo)
  obtain i idx where p: "p = (i, idx)" by force
  have idx: "idx < length batches" using Cons.prems(1) p by simp
  let ?w0 = "py_print (BatchStart i n_todo idx (length (batches ! idx))) (snd st)"
  show ?case
  proof (cases "process_batch fuel key model (batches ! idx) idx (fst st, ?w0)")
    case None
    then show ?thesis using Cons.prems(2) p idx by (simp add: Let_def)
  next
    case (Some st')
    then have "run_batches fuel key model batches n_todo todo st' = Some (r, w')"
      using Cons.prems(2) p idx by (simp add: Let_def)
    moreover have "\<forall>p\<in>set todo. snd p < length batches" using Cons.prems(1) by simp
    ultimately show ?thesis using Cons.IH by blast
  qed
qed

lemma load_key_print [simp]: "load_key name (py_print l w) = load_key name w"
  by (simp add: load_key_def py_print_def)





lemma load_key_console [simp]: "load_key name (w\<lparr>console := c\<rparr>) = load_key name w"
  by (simp add: load_key_def)

lemma py_eq_refl [simp]: "py_eq x x"
  by (simp add: py_eq_def)


lemma observe_loop_Some:
  "observe_loop r = Some (res, p, out, c) \<Longrightarrow> \<exists>w'. r = Some (res, w')"
  by (cases r) (auto simp: observe_loop_def)


text \<open>The equations that evaluate the loaders and a run on a literal world.\<close>

lemmas load_eval = example_world_def load_sentences_def load_progress_def progress_of_data_def
  load_key_def startswith_def removesuffix_def endswith_def stop_marker_def py_strip_def
  is_space_def py_add_def py_in_def py_eq_def Let_def


lemmas run_eval = net_eval example_world_def py_print_def build_prompt_def reply_text_def

subsection \<open>C1: the driver processes the first pending batches in ascending order\<close>



subsection \<open>C5: a failed batch does not stop the run\<close>

text \<open>
  Claim C5.  When the remote call of a batch raises (a transport error, a job failure, a
  result error or any other exception of \<open>generate_one\<close>), the loop reports the batch as
  failed and goes on with the remaining batches exactly as they were: the progress set is
  the one it had, and the progress file and the output file are unchanged.  Whatever fails
  inside the batches, the loop itself never ends with an exception.
\<close>

theorem failed_batch_is_skipped:
  "(idx < length batches
      \<and> generate_one fuel key (build_prompt (batches ! idx)) model
           (py_print (BatchStart i n_todo idx (length (batches ! idx))) w) = Some (Inl e, w1)
     \<longrightarrow> run_batches fuel key model batches n_todo ((i, idx) # rest) (dn, w)
           = run_batches fuel key model batches n_todo rest (dn, py_print (BatchFailed e) w1)
         \<and> progress_file w1 = progress_file w \<and> output_file w1 = output_file w)
   \<and> ((\<forall>p\<in>set todo. snd p < length batches)
      \<and> run_batches fuel key model batches n_todo todo (dn, w) = Some (r, w')
     \<longrightarrow> (\<exists>dn'. r = Inr dn'))"
proof -
  let ?w0 = "py_print (BatchStart i n_todo idx (length (batches ! idx))) w"
  have a: "idx < length batches
      \<and> generate_one fuel key (build_prompt (batches ! idx)) model ?w0 = Some (Inl e, w1)
     \<longrightarrow> run_batches fuel key model batches n_todo ((i, idx) # rest) (dn, w)
           = run_batches fuel key model batches n_todo rest (dn, py_print (BatchFailed e) w1)
         \<and> progress_file w1 = progress_file w \<and> output_file w1 = output_file w"
  proof
    assume h: "idx < length batches
      \<and> generate_one fuel key (build_prompt (batches ! idx)) model ?w0 = Some (Inl e, w1)"
    then have "process_batch fuel key model (batches ! idx) idx (dn, ?w0)
                 = Some (dn, py_print (BatchFailed e) w1)"
      by (simp add: process_batch_def)
    with h have "run_batches fuel key model batches n_todo ((i, idx) # rest) (dn, w)
           = run_batches fuel key model batches n_todo rest (dn, py_print (BatchFailed e) w1)"
      by (intro run_batches_step) simp_all
    moreover have "untouched ?w0 w1" using h generate_one_untouched by blast
    then have "progress_file w1 = progress_file w \<and> output_file w1 = output_file w"
      by (simp add: untouched_def py_print_def)
    ultimately show "run_batches fuel key model batches n_todo ((i, idx) # rest) (dn, w)
           = run_batches fuel key model batches n_todo rest (dn, py_print (BatchFailed e) w1)
         \<and> progress_file w1 = progress_file w \<and> output_file w1 = output_file w"
      by simp
  qed
  have b: "(\<forall>p\<in>set todo. snd p < length batches)
      \<and> run_batches fuel key model batches n_todo todo (dn, w) = Some (r, w')
     \<longrightarrow> (\<exists>dn'. r = Inr dn')"
    using run_batches_no_exception by blast
  show ?thesis by (rule conjI [OF a b])
qed

text \<open>
  The instance of the claim: three pending batches, the job of the first one fails; the
  other two are processed, and the progress saved is \<open>[1, 2]\<close>.
\<close>

theorem failed_batch_is_skipped_witness:
  "observe_loop (run_batches (Suc 0) ''secret'' ''m'' [[''a''], [''b''], [''c'']] 3
       [(1, 0), (2, 1), (3, 2)]
       ([], example_world [''a<stop>'', ''b'', ''c''] Missing
              (service (\<lambda>pos. if pos = 1 then ''FAILED'' else ''COMPLETED'') reply_text)
              (\<lambda>pos. False)))
     = Some (Inr [SInt 1, SInt 2],
             Content (Some (JArr [JScalar (SInt 1), JScalar (SInt 2)])),
             ''a Q: x? A: y<stop>'' @ [LF] @ ''b Q: z? A: w<stop>'' @ [LF]
               @ ''a Q: x? A: y<stop>'' @ [LF] @ ''b Q: z? A: w<stop>'' @ [LF],
             [BatchStart 1 3 0 1,
              BatchFailed (JobFailed (JScalar (SStr ''FAILED''))
                             (JObj [(''status'', JScalar (SStr ''FAILED''))])),
              BatchStart 2 3 1 1, BatchOK 2, BatchStart 3 3 2 1, BatchOK 2])
   \<and> (\<exists>dn' w'. run_batches (Suc 0) ''secret'' ''m'' [[''a''], [''b''], [''c'']] 3
         [(1, 0), (2, 1), (3, 2)]
         ([], example_world [''a<stop>'', ''b'', ''c''] Missing
                (service (\<lambda>pos. if pos = 1 then ''FAILED'' else ''COMPLETED'') reply_text)
                (\<lambda>pos. False))
       = Some (Inr dn', w'))"
proof -
  let ?B = "[[''a''], [''b''], [''c'']]"
  let ?S = "service (\<lambda>pos. if pos = 1 then ''FAILED'' else ''COMPLETED'') reply_text"
  let ?W = "example_world [''a<stop>'', ''b'', ''c''] Missing ?S (\<lambda>pos. False)"
  let ?E = "JobFailed (JScalar (SStr ''FAILED'')) (JObj [(''status'', JScalar (SStr ''FAILED''))])"
  let ?W1 = "?W\<lparr>net_pos := 2, console := [BatchStart 1 3 0 1]\<rparr>"
  have g: "(0::nat) < length ?B
      \<and> generate_one (Suc 0) ''secret'' (build_prompt (?B ! 0)) ''m''
           (py_print (BatchStart 1 3 0 (length (?B ! 0))) ?W) = Some (Inl ?E, ?W1)"
    by (simp add: run_eval)
  have step: "run_batches (Suc 0) ''secret'' ''m'' ?B 3 ((1, 0) # [(2, 1), (3, 2)]) ([], ?W)
       = run_batches (Suc 0) ''secret'' ''m'' ?B 3 [(2, 1), (3, 2)] ([], py_print (BatchFailed ?E) ?W1)"
    using failed_batch_is_skipped [where idx = 0 and batches = ?B and fuel = "Suc 0"
        and key = "''secret''" and model = "''m''" and i = 1 and n_todo = 3 and w = ?W
        and e = ?E and ?w1.0 = ?W1 and rest = "[(2, 1), (3, 2)]" and dn = "[]"] g
    by blast
  have rest: "observe_loop (run_batches (Suc 0) ''secret'' ''m'' ?B 3 [(2, 1), (3, 2)]
         ([], py_print (BatchFailed ?E) ?W1))
     = Some (Inr [SInt 1, SInt 2],
             Content (Some (JArr [JScalar (SInt 1), JScalar (SInt 2)])),
             ''a Q: x? A: y<stop>'' @ [LF] @ ''b Q: z? A: w<stop>'' @ [LF]
               @ ''a Q: x? A: y<stop>'' @ [LF] @ ''b Q: z? A: w<stop>'' @ [LF],
             [BatchStart 1 3 0 1, BatchFailed ?E,
              BatchStart 2 3 1 1, BatchOK 2, BatchStart 3 3 2 1, BatchOK 2])"
    by code_simp
  have all: "observe_loop (run_batches (Suc 0) ''secret'' ''m'' ?B 3 [(1, 0), (2, 1), (3, 2)] ([], ?W))
     = Some (Inr [SInt 1, SInt 2],
             Content (Some (JArr [JScalar (SInt 1), JScalar (SInt 2)])),
             ''a Q: x? A: y<stop>'' @ [LF] @ ''b Q: z? A: w<stop>'' @ [LF]
               @ ''a Q: x? A: y<stop>'' @ [LF] @ ''b Q: z? A: w<stop>'' @ [LF],
             [BatchStart 1 3 0 1, BatchFailed ?E,
              BatchStart 2 3 1 1, BatchOK 2, BatchStart 3 3 2 1, BatchOK 2])"
    using step rest by simp
  from observe_loop_Some [OF all] obtain w' where
    run: "run_batches (Suc 0) ''secret'' ''m'' ?B 3 [(1, 0), (2, 1), (3, 2)] ([], ?W)
            = Some (Inr [SInt 1, SInt 2], w')"
    by blast
  have rng: "\<forall>p\<in>set [(1::nat, 0::nat), (2, 1), (3, 2)]. snd p < length ?B" by simp
  from failed_batch_is_skipped [where todo = "[(1, 0), (2, 1), (3, 2)]" and batches = ?B
      and fuel = "Suc 0" and key = "''secret''" and model = "''m''" and n_todo = 3
      and dn = "[]" and w = ?W and r = "Inr [SInt 1, SInt 2]" and w' = w'] rng run
  have "\<exists>dn'. (Inr [SInt 1, SInt 2] :: error + pyset) = Inr dn'" by blast
  with run have "\<exists>dn' w'. run_batches (Suc 0) ''secret'' ''m'' ?B 3 [(1, 0), (2, 1), (3, 2)] ([], ?W)
            = Some (Inr dn', w')"
    by blast
  with all show ?thesis by simp
qed

subsection \<open>C3: storage errors\<close>

text \<open>
  Claim C3 says that a storage error raised while a batch is processed leaves the loop and
  aborts the run.  The handler of line 206 catches every \<^verbatim>\<open>Exception\<close>, an \<^verbatim>\<open>OSError\<close>
  among them: with the append of the first batch failing, the run reports the batch as
  failed, processes the second batch and returns.
\<close>

theorem append_failure_does_not_abort:
  "observe (main (Suc 0) \<lparr>arg_n = 10, arg_batch_size = 1, arg_model = ''m''\<rparr>
      (example_world [''a<stop>'', ''b''] Missing
         (service (\<lambda>pos. ''COMPLETED'') reply_text) (\<lambda>pos. pos = 0)))
     = Some (Inr (), Content (Some (JArr [JScalar (SInt 1)])),
             ''a Q: x? A: y<stop>'' @ [LF] @ ''b Q: z? A: w<stop>'' @ [LF],
             [Summary 2 2 0 2, Generating 2 ''m'', BatchStart 1 2 0 1,
              BatchFailed (OSError OutputFile), BatchStart 2 2 1 1, BatchOK 2, AllGenerated],
             6)"
  by code_simp

text \<open>
  Claim C3, amended.  A storage error raised while a batch is processed is caught like a
  remote error: when the append fails, and when the append succeeds and the save of the
  progress fails, the batch is reported as failed and the loop goes on with the remaining
  batches (in the second case with the index in the progress set and the text in the
  output file).  A storage error raised before the loop, while the sentences or the
  progress are loaded, leaves \<open>main\<close> and aborts the run.
\<close>

theorem storage_error_is_caught:
  "(idx < length batches
      \<and> generate_one fuel key (build_prompt (batches ! idx)) model
           (py_print (BatchStart i n_todo idx (length (batches ! idx))) w) = Some (Inr raw, w1)
      \<and> disk w1 (disk_pos w1)
     \<longrightarrow> run_batches fuel key model batches n_todo ((i, idx) # rest) (dn, w)
           = run_batches fuel key model batches n_todo rest
               (dn, py_print (BatchFailed (OSError OutputFile))
                      (w1\<lparr>disk_pos := Suc (disk_pos w1)\<rparr>)))
   \<and> (idx < length batches
      \<and> generate_one fuel key (build_prompt (batches ! idx)) model
           (py_print (BatchStart i n_todo idx (length (batches ! idx))) w) = Some (Inr raw, w1)
      \<and> \<not> disk w1 (disk_pos w1) \<and> disk w1 (Suc (disk_pos w1))
     \<longrightarrow> run_batches fuel key model batches n_todo ((i, idx) # rest) (dn, w)
           = run_batches fuel key model batches n_todo rest
               (py_add dn (SInt (int idx)),
                py_print (BatchFailed (OSError ProgressFile))
                  (w1\<lparr>output_file := output_file w1 @ format_output raw @ [LF],
                      disk_pos := Suc (Suc (disk_pos w1))\<rparr>)))
   \<and> (load_sentences w = Inl e \<longrightarrow> main fuel a w = Some (Inl e, w))
   \<and> (load_sentences w = Inr sentences \<and> load_progress w = Inl e
        \<longrightarrow> main fuel a w = Some (Inl e, w))"
proof -
  let ?w0 = "py_print (BatchStart i n_todo idx (length (batches ! idx))) w"
  have a: "idx < length batches
      \<and> generate_one fuel key (build_prompt (batches ! idx)) model ?w0 = Some (Inr raw, w1)
      \<and> disk w1 (disk_pos w1)
     \<longrightarrow> run_batches fuel key model batches n_todo ((i, idx) # rest) (dn, w)
           = run_batches fuel key model batches n_todo rest
               (dn, py_print (BatchFailed (OSError OutputFile))
                      (w1\<lparr>disk_pos := Suc (disk_pos w1)\<rparr>))"
  proof
    assume h: "idx < length batches
      \<and> generate_one fuel key (build_prompt (batches ! idx)) model ?w0 = Some (Inr raw, w1)
      \<and> disk w1 (disk_pos w1)"
    then have "process_batch fuel key model (batches ! idx) idx (dn, ?w0)
                 = Some (dn, py_print (BatchFailed (OSError OutputFile))
                      (w1\<lparr>disk_pos := Suc (disk_pos w1)\<rparr>))"
      by (simp add: process_batch_def append_output_def Let_def)
    with h show "run_batches fuel key model batches n_todo ((i, idx) # rest) (dn, w)
           = run_batches fuel key model batches n_todo rest
               (dn, py_print (BatchFailed (OSError OutputFile))
                      (w1\<lparr>disk_pos := Suc (disk_pos w1)\<rparr>))"
      by (intro run_batches_step) simp_all
  qed
  have b: "idx < length batches
      \<and> generate_one fuel key (build_prompt (batches ! idx)) model ?w0 = Some (Inr raw, w1)
      \<and> \<not> disk w1 (disk_pos w1) \<and> disk w1 (Suc (disk_pos w1))
     \<longrightarrow> run_batches fuel key model batches n_todo ((i, idx) # rest) (dn, w)
           = run_batches fuel key model batches n_todo rest
               (py_add dn (SInt (int idx)),
                py_print (BatchFailed (OSError ProgressFile))
                  (w1\<lparr>output_file := output_file w1 @ format_output raw @ [LF],
                      disk_pos := Suc (Suc (disk_pos w1))\<rparr>))"
  proof
    assume h: "idx < length batches
      \<and> generate_one fuel key (build_prompt (batches ! idx)) model ?w0 = Some (Inr raw, w1)
      \<and> \<not> disk w1 (disk_pos w1) \<and> disk w1 (Suc (disk_pos w1))"
    then have "process_batch fuel key model (batches ! idx) idx (dn, ?w0)
                 = Some (py_add dn (SInt (int idx)),
                py_print (BatchFailed (OSError ProgressFile))
                  (w1\<lparr>output_file := output_file w1 @ format_output raw @ [LF],
                      disk_pos := Suc (Suc (disk_pos w1))\<rparr>))"
      by (simp add: process_batch_def append_output_def save_progress_def Let_def)
    with h show "run_batches fuel key model batches n_todo ((i, idx) # rest) (dn, w)
           = run_batches fuel key model batches n_todo rest
               (py_add dn (SInt (int idx)),
                py_print (BatchFailed (OSError ProgressFile))
                  (w1\<lparr>output_file := output_file w1 @ format_output raw @ [LF],
                      disk_pos := Suc (Suc (disk_pos w1))\<rparr>))"
      by (intro run_batches_step) simp_all
  qed
  have c: "load_sentences w = Inl e \<longrightarrow> main fuel a w = Some (Inl e, w)"
    by (simp add: main_def)
  have d: "load_sentences w = Inr sentences \<and> load_progress w = Inl e
        \<longrightarrow> main fuel a w = Some (Inl e, w)"
    by (simp add: main_def)
  show ?thesis by (rule conjI [OF a conjI [OF b conjI [OF c d]]])
qed

text \<open>Instances: a failing append, a failing save, a missing corpus and an unreadable
  progress file.\<close>

theorem storage_error_is_caught_witness:
  "observe_loop (run_batches (Suc 0) ''secret'' ''m'' [[''a''], [''b'']] 2 [(1, 0), (2, 1)]
       ([], example_world [''a<stop>'', ''b''] Missing
              (service (\<lambda>pos. ''COMPLETED'') reply_text) (\<lambda>pos. pos = 0)))
     = Some (Inr [SInt 1], Content (Some (JArr [JScalar (SInt 1)])),
             ''a Q: x? A: y<stop>'' @ [LF] @ ''b Q: z? A: w<stop>'' @ [LF],
             [BatchStart 1 2 0 1, BatchFailed (OSError OutputFile), BatchStart 2 2 1 1, BatchOK 2])
   \<and> observe_loop (run_batches (Suc 0) ''secret'' ''m'' [[''a''], [''b'']] 2 [(1, 0), (2, 1)]
       ([], example_world [''a<stop>'', ''b''] Missing
              (service (\<lambda>pos. ''COMPLETED'') reply_text) (\<lambda>pos. pos = 1)))
     = Some (Inr [SInt 0, SInt 1],
             Content (Some (JArr [JScalar (SInt 0), JScalar (SInt 1)])),
             ''a Q: x? A: y<stop>'' @ [LF] @ ''b Q: z? A: w<stop>'' @ [LF]
               @ ''a Q: x? A: y<stop>'' @ [LF] @ ''b Q: z? A: w<stop>'' @ [LF],
             [BatchStart 1 2 0 1, BatchFailed (OSError ProgressFile), BatchStart 2 2 1 1, BatchOK 2])
   \<and> main (Suc 0) \<lparr>arg_n = 10, arg_batch_size = 1, arg_model = ''m''\<rparr> quiet_world
       = Some (Inl (OSError CorpusFile), quiet_world)
   \<and> main (Suc 0) \<lparr>arg_n = 10, arg_batch_size = 1, arg_model = ''m''\<rparr>
        (quiet_world\<lparr>corpus_file := Content [''a''], progress_file := Unreadable\<rparr>)
       = Some (Inl (OSError ProgressFile),
               quiet_world\<lparr>corpus_file := Content [''a''], progress_file := Unreadable\<rparr>)"
proof -
  let ?B = "[[''a''], [''b'']]"
  let ?S = "service (\<lambda>pos. ''COMPLETED'') reply_text"
  let ?Wa = "example_world [''a<stop>'', ''b''] Missing ?S (\<lambda>pos. pos = 0)"
  let ?Wb = "example_world [''a<stop>'', ''b''] Missing ?S (\<lambda>pos. pos = 1)"
  let ?raw = "''a Q: x? A: y '' @ [LF] @ ''b Q: z? A: w<stop>''"
  let ?Wa1 = "?Wa\<lparr>net_pos := 3, console := [BatchStart 1 2 0 1]\<rparr>"
  let ?Wb1 = "?Wb\<lparr>net_pos := 3, console := [BatchStart 1 2 0 1]\<rparr>"
  let ?A = "\<lparr>arg_n = 10, arg_batch_size = 1, arg_model = ''m''\<rparr>"
  have ga: "(0::nat) < length ?B
      \<and> generate_one (Suc 0) ''secret'' (build_prompt (?B ! 0)) ''m''
           (py_print (BatchStart 1 2 0 (length (?B ! 0))) ?Wa) = Some (Inr ?raw, ?Wa1)
      \<and> disk ?Wa1 (disk_pos ?Wa1)"
    by (simp add: run_eval)
  have sa: "run_batches (Suc 0) ''secret'' ''m'' ?B 2 ((1, 0) # [(2, 1)]) ([], ?Wa)
       = run_batches (Suc 0) ''secret'' ''m'' ?B 2 [(2, 1)]
           ([], py_print (BatchFailed (OSError OutputFile)) (?Wa1\<lparr>disk_pos := Suc (disk_pos ?Wa1)\<rparr>))"
    using storage_error_is_caught [where idx = 0 and batches = ?B and fuel = "Suc 0"
        and key = "''secret''" and model = "''m''" and i = 1 and n_todo = 2 and w = ?Wa
        and raw = ?raw and ?w1.0 = ?Wa1 and rest = "[(2, 1)]" and dn = "[]"] ga
    by blast
  have ra: "observe_loop (run_batches (Suc 0) ''secret'' ''m'' ?B 2 [(2, 1)]
           ([], py_print (BatchFailed (OSError OutputFile)) (?Wa1\<lparr>disk_pos := Suc (disk_pos ?Wa1)\<rparr>)))
     = Some (Inr [SInt 1], Content (Some (JArr [JScalar (SInt 1)])),
             ''a Q: x? A: y<stop>'' @ [LF] @ ''b Q: z? A: w<stop>'' @ [LF],
             [BatchStart 1 2 0 1, BatchFailed (OSError OutputFile), BatchStart 2 2 1 1, BatchOK 2])"
    by code_simp
  have gb: "(0::nat) < length ?B
      \<and> generate_one (Suc 0) ''secret'' (build_prompt (?B ! 0)) ''m''
           (py_print (BatchStart 1 2 0 (length (?B ! 0))) ?Wb) = Some (Inr ?raw, ?Wb1)
      \<and> \<not> disk ?Wb1 (disk_pos ?Wb1) \<and> disk ?Wb1 (Suc (disk_pos ?Wb1))"
    by (simp add: run_eval)
  have sb: "run_batches (Suc 0) ''secret'' ''m'' ?B 2 ((1, 0) # [(2, 1)]) ([], ?Wb)
       = run_batches (Suc 0) ''secret'' ''m'' ?B 2 [(2, 1)]
           (py_add [] (SInt (int 0)),
            py_print (BatchFailed (OSError ProgressFile))
              (?Wb1\<lparr>output_file := output_file ?Wb1 @ format_output ?raw @ [LF],
                     disk_pos := Suc (Suc (disk_pos ?Wb1))\<rparr>))"
    using storage_error_is_caught [where idx = 0 and batches = ?B and fuel = "Suc 0"
        and key = "''secret''" and model = "''m''" and i = 1 and n_todo = 2 and w = ?Wb
        and raw = ?raw and ?w1.0 = ?Wb1 and rest = "[(2, 1)]" and dn = "[]"] gb
    by blast
  have rb: "observe_loop (run_batches (Suc 0) ''secret'' ''m'' ?B 2 [(2, 1)]
           (py_add [] (SInt (int 0)),
            py_print (BatchFailed (OSError ProgressFile))
              (?Wb1\<lparr>output_file := output_file ?Wb1 @ format_output ?raw @ [LF],
                     disk_pos := Suc (Suc (disk_pos ?Wb1))\<rparr>)))
     = Some (Inr [SInt 0, SInt 1],
             Content (Some (JArr [JScalar (SInt 0), JScalar (SInt 1)])),
             ''a Q: x? A: y<stop>'' @ [LF] @ ''b Q: z? A: w<stop>'' @ [LF]
               @ ''a Q: x? A: y<stop>'' @ [LF] @ ''b Q: z? A: w<stop>'' @ [LF],
             [BatchStart 1 2 0 1, BatchFailed (OSError ProgressFile), BatchStart 2 2 1 1, BatchOK 2])"
    by code_simp
  have lc: "load_sentences quiet_world = Inl (OSError CorpusFile)"
    by (simp add: load_sentences_def quiet_world_def)
  have c: "main (Suc 0) ?A quiet_world = Some (Inl (OSError CorpusFile), quiet_world)"
    using storage_error_is_caught [where w = quiet_world and e = "OSError CorpusFile"
        and fuel = "Suc 0" and a = ?A] lc
    by blast
  let ?Wd = "quiet_world\<lparr>corpus_file := Content [''a''], progress_file := Unreadable\<rparr>"
  have ld: "load_sentences ?Wd = Inr [''a''] \<and> load_progress ?Wd = Inl (OSError ProgressFile)"
    by (simp add: load_eval)
  have d: "main (Suc 0) ?A ?Wd = Some (Inl (OSError ProgressFile), ?Wd)"
    using storage_error_is_caught [where w = ?Wd and e = "OSError ProgressFile"
        and sentences = "[''a'']" and fuel = "Suc 0" and a = ?A] ld
    by blast
  show ?thesis using sa ra sb rb c d by simp
qed

subsection \<open>C2: marking after appending\<close>




subsection \<open>C10: a batch size that is not positive\<close>

text \<open>
  Claim C10 says that the program fails with a configuration error for every batch size
  \<open>b \<le> 0\<close>.  The script does not check the batch size: for a negative one
  \<^verbatim>\<open>range(0, len, b)\<close> is empty, and the run goes on with no batch and returns.
\<close>

theorem negative_batch_size_runs:
  "observe (main (Suc 0) \<lparr>arg_n = 10, arg_batch_size = - 1, arg_model = ''m''\<rparr>
      (example_world [''a<stop>'', ''b''] Missing
         (service (\<lambda>pos. ''COMPLETED'') reply_text) (\<lambda>pos. False)))
     = Some (Inr (), Missing, [], [Summary 2 0 0 0, Generating 0 ''m'', AllGenerated], 0)"
  by code_simp

text \<open>
  Claim C10, amended.  For every batch size \<open>b \<le> 0\<close> the run makes no remote call and
  leaves the output and progress files as they are.  For \<open>b = 0\<close> it fails: once the
  sentences and the progress are loaded, \<^verbatim>\<open>range\<close> raises \<^verbatim>\<open>ValueError\<close>.  For \<open>b < 0\<close>
  it does not fail: with the sentences and the progress loaded, and a key in place unless
  the run is a dry run, \<open>main\<close> returns.
\<close>

theorem nonpositive_batch_size:
  assumes "arg_batch_size a \<le> 0"
  shows "\<exists>r w'. main fuel a w = Some (r, w')
      \<and> net_pos w' = net_pos w \<and> output_file w' = output_file w
      \<and> progress_file w' = progress_file w
      \<and> (arg_batch_size a = 0 \<longrightarrow>
           (\<exists>e. r = Inl e)
           \<and> ((\<exists>s. load_sentences w = Inr s) \<and> (\<exists>dn. load_progress w = Inr dn)
                \<longrightarrow> r = Inl ValueError))
      \<and> (arg_batch_size a < 0 \<and> (\<exists>s. load_sentences w = Inr s) \<and> (\<exists>dn. load_progress w = Inr dn)
           \<and> (arg_n a = 0 \<or> (\<exists>key. load_key ''FAL_KEY'' w = Inr (Some key) \<and> key \<noteq> []))
          \<longrightarrow> r = Inr ())"
proof (cases "load_sentences w")
  case (Inl e)
  then show ?thesis by (simp add: main_def)
next
  case s: (Inr sentences)
  show ?thesis
  proof (cases "load_progress w")
    case (Inl e)
    then show ?thesis using s by (simp add: main_def)
  next
    case d: (Inr dn)
    show ?thesis
    proof (cases "arg_batch_size a = 0")
      case True
      then show ?thesis using s d by (simp add: main_def make_batches_def)
    next
      case False
      then have neg: "arg_batch_size a < 0" using assms by simp
      then have mb: "make_batches sentences (arg_batch_size a) = Inr []"
        by (simp add: make_batches_def)
      have pe: "pending_batches dn 0 = []" by (simp add: pending_batches_def)
      show ?thesis
      proof (cases "arg_n a = 0")
        case True
        then show ?thesis using s d mb pe neg by (simp add: main_def py_print_def)
      next
        case n: False
        show ?thesis
        proof (cases "load_key ''FAL_KEY'' w")
          case (Inl e)
          then show ?thesis using s d mb pe neg n by (simp add: main_def py_print_def)
        next
          case (Inr k)
          then show ?thesis using s d mb pe neg n
            by (cases k) (auto simp: main_def py_print_def py_slice_to_def Let_def)
        qed
      qed
    qed
  qed
qed

text \<open>Instances: the batch sizes 0 and -1.\<close>

theorem nonpositive_batch_size_witness:
  "(\<exists>w'. main (Suc 0) \<lparr>arg_n = 10, arg_batch_size = 0, arg_model = ''m''\<rparr>
        (example_world [''a<stop>'', ''b''] Missing
           (service (\<lambda>pos. ''COMPLETED'') reply_text) (\<lambda>pos. False))
      = Some (Inl ValueError, w') \<and> net_pos w' = 0)
   \<and> (\<exists>w'. main (Suc 0) \<lparr>arg_n = 10, arg_batch_size = - 1, arg_model = ''m''\<rparr>
        (example_world [''a<stop>'', ''b''] Missing
           (service (\<lambda>pos. ''COMPLETED'') reply_text) (\<lambda>pos. False))
      = Some (Inr (), w') \<and> net_pos w' = 0 \<and> output_file w' = [] \<and> progress_file w' = Missing)"
proof -
  let ?W = "example_world [''a<stop>'', ''b''] Missing
           (service (\<lambda>pos. ''COMPLETED'') reply_text) (\<lambda>pos. False)"
  let ?A0 = "\<lparr>arg_n = 10, arg_batch_size = 0, arg_model = ''m''\<rparr>"
  let ?A1 = "\<lparr>arg_n = 10, arg_batch_size = - 1, arg_model = ''m''\<rparr>"
  have l: "load_sentences ?W = Inr [''a'', ''b'']" "load_progress ?W = Inr []"
    "load_key ''FAL_KEY'' ?W = Inr (Some ''secret'')"
    by (simp_all add: load_eval)
  have w: "net_pos ?W = 0" "output_file ?W = []" "progress_file ?W = Missing"
    by (simp_all add: example_world_def)
  have a: "\<exists>w'. main (Suc 0) ?A0 ?W = Some (Inl ValueError, w') \<and> net_pos w' = 0"
    using nonpositive_batch_size [of ?A0 "Suc 0" ?W] l w by auto
  have b: "\<exists>w'. main (Suc 0) ?A1 ?W = Some (Inr (), w') \<and> net_pos w' = 0
       \<and> output_file w' = [] \<and> progress_file w' = Missing"
    using nonpositive_batch_size [of ?A1 "Suc 0" ?W] l w by auto
  show ?thesis using a b by simp
qed

end
